theory Spec2Isabelle
  imports Complex_Main "HOL-Library.Word"
begin

unbundle bit_operations_syntax

section \<open>LumaMap: MIDI activation engine and polygon authoring\<close>

text \<open>
  A shallow embedding of the MIDI handling of \<^verbatim>\<open>utils/midiUtils.ts\<close> and \<^verbatim>\<open>App.tsx\<close>
  (\<^verbatim>\<open>parseMidiMessage\<close>, \<^verbatim>\<open>getNoteKey\<close>, \<^verbatim>\<open>handleMidiMessage\<close>, \<^verbatim>\<open>handleNewShape\<close>) and of the
  canvas logic of \<^verbatim>\<open>ProjectionCanvas.tsx\<close> (\<^verbatim>\<open>getCoords\<close>, \<^verbatim>\<open>finishDrawing\<close>,
  \<^verbatim>\<open>handleKeyDown\<close>, \<^verbatim>\<open>handleWindowMouseMove\<close>, \<^verbatim>\<open>isShapeActive\<close> and the opacity computed
  from it).

  Conventions of the model:
  \<^item> a JavaScript \<^verbatim>\<open>number\<close> that holds a MIDI byte, a channel, a note or a timestamp is an
    \<^typ>\<open>int\<close>; a coordinate or an opacity is a \<^typ>\<open>real\<close> (rounding, infinities and NaN of
    IEEE doubles are outside the model);
  \<^item> an element of a \<^verbatim>\<open>Uint8Array\<close> is an \<^typ>\<open>8 word\<close>; reading past the end of the array gives
    \<^verbatim>\<open>undefined\<close>, which the model keeps as a value of its own;
  \<^item> the \<^verbatim>\<open>Map<string, ActiveNote>\<close> is a partial function from strings;
  \<^item> React state is passed explicitly: a handler takes the state and returns the new one.
\<close>

subsection \<open>Numbers and their rendering in template literals\<close>

type_synonym u8 = "8 word"

text \<open>A value of TypeScript type \<^verbatim>\<open>number\<close> that may in fact be \<^verbatim>\<open>undefined\<close> at run time
  (the result of indexing a typed array out of range).\<close>

datatype jsnum = Num int | Undefined

definition digitChar :: "nat \<Rightarrow> char" where
  "digitChar d = char_of (48 + d)"

text \<open>Decimal digits of a natural number, most significant first, no leading zero.\<close>

fun showNat :: "nat \<Rightarrow> string" where
  "showNat n = (if n < 10 then [digitChar n] else showNat (n div 10) @ [digitChar (n mod 10)])"

declare showNat.simps [simp del]

text \<open>\<^verbatim>\<open>Number.prototype.toString\<close> on an integer (of magnitude below \<open>10\<^sup>2\<^sup>1\<close>, where JavaScript
  prints plain decimal digits).\<close>

definition showInt :: "int \<Rightarrow> string" where
  "showInt i = (if i < 0 then CHR ''-'' # showNat (nat (- i)) else showNat (nat i))"

text \<open>What a template literal \<^verbatim>\<open>${v}\<close> prints for a number or for \<^verbatim>\<open>undefined\<close>.\<close>

fun toString :: "jsnum \<Rightarrow> string" where
  "toString (Num i) = showInt i"
| "toString Undefined = ''undefined''"

subsection \<open>\<^verbatim>\<open>utils/midiUtils.ts\<close>\<close>

record MidiParsed =
  command :: int
  channel :: int
  "note" :: jsnum
  velocity :: int

text \<open>\<^verbatim>\<open>data[i]\<close> on a \<^verbatim>\<open>Uint8Array\<close>: \<^verbatim>\<open>undefined\<close> (here \<open>None\<close>) past the end.\<close>

definition byteAt :: "u8 list \<Rightarrow> nat \<Rightarrow> u8 option" where
  "byteAt data i = (if i < length data then Some (data ! i) else None)"

text \<open>
  \<^verbatim>\<open>
  export const parseMidiMessage = (data: Uint8Array) => {
    const command = data[0] >> 4;
    const channel = (data[0] & 0xf) + 1;
    const note = data[1];
    const velocity = data.length > 2 ? data[2] : 0;
    return { command, channel, note, velocity };
  };
  \<close>
  The bitwise operators convert \<^verbatim>\<open>undefined\<close> to 0, so on an empty array the command is 0 and
  the channel is 1; \<^verbatim>\<open>data[1]\<close> is passed on as it is.
\<close>

definition parseMidiMessage :: "u8 list \<Rightarrow> MidiParsed" where
  "parseMidiMessage data =
     \<lparr> command = (case byteAt data 0 of None \<Rightarrow> 0 | Some b \<Rightarrow> uint (drop_bit 4 b)),
       channel = (case byteAt data 0 of None \<Rightarrow> 0 | Some b \<Rightarrow> uint (b AND 0xf)) + 1,
       note = (case byteAt data 1 of None \<Rightarrow> Undefined | Some b \<Rightarrow> Num (uint b)),
       velocity = (if length data > 2 then uint (data ! 2) else 0) \<rparr>"

text \<open>\<^verbatim>\<open>export const getNoteKey = (channel: number, note: number) => `${channel}-${note}`;\<close>\<close>

definition getNoteKey :: "jsnum \<Rightarrow> jsnum \<Rightarrow> string" where
  "getNoteKey ch n = toString ch @ ''-'' @ toString n"

subsection \<open>\<^verbatim>\<open>types.ts\<close>\<close>

record ActiveNote =
  velocity :: int
  timestamp :: int

type_synonym ActiveNotesMap = "string \<rightharpoonup> ActiveNote"

datatype AppMode = EDIT | PERFORMANCE

subsection \<open>\<^verbatim>\<open>App.tsx\<close>: the MIDI message handler\<close>

text \<open>
  \<^verbatim>\<open>
  const handleMidiMessage = useCallback((event: MIDIMessageEvent) => {
    const { command, channel, note, velocity } = parseMidiMessage(event.data);
    const key = getNoteKey(channel, note);
    const newMap = new Map(activeNotesRef.current);
    if (command === 9 && velocity > 0) {
      newMap.set(key, { velocity, timestamp: Date.now() });
    }
    else if (command === 8 || (command === 9 && velocity === 0)) {
      newMap.delete(key);
    }
    activeNotesRef.current = newMap;
    setActiveNotes(newMap);
  }, []);
  \<close>
  The handler reads the map held by \<^verbatim>\<open>activeNotesRef\<close>, and stores one new map both in the ref
  and in the React state; the model takes the map of the ref and returns that new map.
  \<open>now\<close> is the value of \<^verbatim>\<open>Date.now()\<close>.
\<close>

definition handleMidiMessage :: "u8 list \<Rightarrow> int \<Rightarrow> ActiveNotesMap \<Rightarrow> ActiveNotesMap" where
  "handleMidiMessage data now activeNotesRef =
     (let p = parseMidiMessage data;
          key = getNoteKey (Num (channel p)) (note p);
          newMap = activeNotesRef
      in if command p = 9 \<and> MidiParsed.velocity p > 0
           then newMap(key \<mapsto> \<lparr> ActiveNote.velocity = MidiParsed.velocity p, timestamp = now \<rparr>)
         else if command p = 8 \<or> (command p = 9 \<and> MidiParsed.velocity p = 0)
           then newMap(key := None)
         else newMap)"

text \<open>The handler run over a sequence of incoming messages, each with its arrival time.\<close>

fun replay :: "(u8 list \<times> int) list \<Rightarrow> ActiveNotesMap \<Rightarrow> ActiveNotesMap" where
  "replay [] m = m"
| "replay ((data, now) # evs) m = replay evs (handleMidiMessage data now m)"

subsection \<open>\<^verbatim>\<open>types.ts\<close>: points and shapes\<close>

text \<open>The fields \<^verbatim>\<open>x\<close> and \<^verbatim>\<open>y\<close> of a \<^verbatim>\<open>Point\<close> (renamed: a field is a constant of the theory).\<close>

record Point =
  px :: real
  py :: real

text \<open>
  A JavaScript array may have holes: an element that was never written reads as
  \<^verbatim>\<open>undefined\<close>. An array is a list of optional elements, \<open>None\<close> being a hole, and
  \<^verbatim>\<open>a[i] = v\<close> extends the array when \<open>i\<close> is at or past its length.
\<close>

type_synonym 'a jsarray = "'a option list"

definition arraySet :: "'a jsarray \<Rightarrow> nat \<Rightarrow> 'a \<Rightarrow> 'a jsarray" where
  "arraySet xs i v =
     (if i < length xs then xs[i := Some v]
      else xs @ replicate (i - length xs) None @ [Some v])"

text \<open>The interface \<^verbatim>\<open>Shape\<close>; its field \<^verbatim>\<open>id\<close> is \<open>id'\<close> here.\<close>

record Shape =
  id' :: string
  name :: string
  points :: "Point jsarray"
  channel :: int
  noteStart :: int
  noteEnd :: int
  color :: string
  velocitySensitive :: bool
  baseOpacity :: real

subsection \<open>The state of the authoring surface\<close>

text \<open>
  The React state that the handlers below read and write: \<^verbatim>\<open>shapes\<close>, \<^verbatim>\<open>selectedShapeId\<close> and
  \<^verbatim>\<open>mode\<close> of \<^verbatim>\<open>App\<close>; \<^verbatim>\<open>drawingPoints\<close>, \<^verbatim>\<open>isDrawing\<close> and \<^verbatim>\<open>draggedPointIndex\<close> of
  \<^verbatim>\<open>ProjectionCanvas\<close>.

  A handler is a closure: it reads the values of the render that created it, and its
  setters write the state of the moment it runs. Where a handler can run after the state has
  moved on, the model gives it two states: \<open>bound\<close>, the state of the render that created
  the handler, which it reads, and \<open>st\<close>, the state it is run in, which its setters change.
\<close>

record UIState =
  shapes :: "Shape list"
  selectedShapeId :: "string option"
  mode :: AppMode
  drawingPoints :: "Point jsarray"
  isDrawing :: bool
  draggedPointIndex :: "nat option"

text \<open>
  \<^verbatim>\<open>
  const handleNewShape = (points: Point[]) => {
    const newShape: Shape = {
      id: crypto.randomUUID(),
      name: `Shape ${shapes.length + 1}`,
      points,
      channel: 0, // Omni
      noteStart: 60, // Middle C
      noteEnd: 60,
      color: '#00ffcc',
      velocitySensitive: false,
      baseOpacity: 1.0,
    };
    setShapes([...shapes, newShape]);
    setSelectedShapeId(newShape.id);
  };
  \<close>
  \<open>uuid\<close> is the value that \<^verbatim>\<open>crypto.randomUUID()\<close> returns. \<^verbatim>\<open>shapes\<close> is the list of the
  render that created this \<^verbatim>\<open>handleNewShape\<close>; \<^verbatim>\<open>setShapes\<close> replaces the list of the current
  state by the value it is given.
\<close>

definition handleNewShape :: "string \<Rightarrow> Point jsarray \<Rightarrow> UIState \<Rightarrow> UIState \<Rightarrow> UIState" where
  "handleNewShape uuid pts bound st =
     (let newShape = \<lparr> id' = uuid,
                       name = ''Shape '' @ showInt (int (length (shapes bound)) + 1),
                       points = pts,
                       channel = 0,
                       noteStart = 60,
                       noteEnd = 60,
                       color = ''#00ffcc'',
                       velocitySensitive = False,
                       baseOpacity = 1 \<rparr>
      in st\<lparr> shapes := shapes bound @ [newShape], selectedShapeId := Some (id' newShape) \<rparr>)"


subsection \<open>\<^verbatim>\<open>ProjectionCanvas.tsx\<close>: drawing a polygon\<close>

text \<open>
  \<^verbatim>\<open>
  const finishDrawing = () => {
    if (drawingPoints.length >= 3) {
      onNewShapePoints(drawingPoints);
    }
    setDrawingPoints([]);
    setIsDrawing(false);
  };
  \<close>
  \<^verbatim>\<open>drawingPoints\<close> and \<^verbatim>\<open>onNewShapePoints\<close> are those of the render that created this
  \<^verbatim>\<open>finishDrawing\<close>; \<^verbatim>\<open>onNewShapePoints\<close> is the \<^verbatim>\<open>handleNewShape\<close> that \<^verbatim>\<open>App\<close> passed to that
  render.
\<close>

definition finishDrawing :: "string \<Rightarrow> UIState \<Rightarrow> UIState \<Rightarrow> UIState" where
  "finishDrawing uuid bound st =
     (let st1 = (if length (drawingPoints bound) \<ge> 3
                 then handleNewShape uuid (drawingPoints bound) bound st else st)
      in st1\<lparr> drawingPoints := [], isDrawing := False \<rparr>)"

text \<open>
  \<^verbatim>\<open>
  const handleKeyDown = (e: KeyboardEvent) => {
    if (mode === AppMode.PERFORMANCE) return;
    if (e.key === 'Enter' && isDrawing) {
      finishDrawing();
    }
    if (e.key === 'Escape') {
      if (isDrawing) {
        setDrawingPoints([]);
        setIsDrawing(false);
      } else {
        onShapeSelect(null);
      }
    }
  };
  \<close>
  \<^verbatim>\<open>mode\<close>, \<^verbatim>\<open>isDrawing\<close> and \<^verbatim>\<open>finishDrawing\<close> are those of the render that created this
  \<^verbatim>\<open>handleKeyDown\<close>.
\<close>

definition handleKeyDown :: "string \<Rightarrow> string \<Rightarrow> UIState \<Rightarrow> UIState \<Rightarrow> UIState" where
  "handleKeyDown key uuid bound st =
     (if mode bound = PERFORMANCE then st
      else
        let st1 = (if key = ''Enter'' \<and> isDrawing bound then finishDrawing uuid bound st else st)
        in if key = ''Escape''
           then (if isDrawing bound then st1\<lparr> drawingPoints := [], isDrawing := False \<rparr>
                 else st1\<lparr> selectedShapeId := None \<rparr>)
           else st1)"

text \<open>
  \<^verbatim>\<open>
  useEffect(() => {
    window.addEventListener('keydown', handleKeyDown);
    return () => window.removeEventListener('keydown', handleKeyDown);
  }, [isDrawing, drawingPoints, mode]);
  \<close>
  The listener on the window is replaced only after a render in which \<^verbatim>\<open>isDrawing\<close>,
  \<^verbatim>\<open>drawingPoints\<close> or \<^verbatim>\<open>mode\<close> has changed. So the \<^verbatim>\<open>handleKeyDown\<close> that a key press runs was
  created by a render \<open>bound\<close> that agrees with the current state on these three values; the
  list of shapes and the selection may have changed since.
\<close>

definition keydownListener :: "UIState \<Rightarrow> UIState \<Rightarrow> bool" where
  "keydownListener bound st =
     (isDrawing bound = isDrawing st \<and> drawingPoints bound = drawingPoints st
      \<and> mode bound = mode st)"

subsection \<open>\<^verbatim>\<open>ProjectionCanvas.tsx\<close>: dragging a vertex\<close>

text \<open>The bounding rectangle of the SVG element (field \<^verbatim>\<open>top\<close> is \<open>top'\<close> here).\<close>

record DOMRect =
  left :: real
  top' :: real
  width :: real
  height :: real

text \<open>
  \<^verbatim>\<open>
  const getCoords = (clientX: number, clientY: number): Point => {
    if (!svgRef.current) return { x: 0, y: 0 };
    const rect = svgRef.current.getBoundingClientRect();
    return {
      x: ((clientX - rect.left) / rect.width) * 100,
      y: ((clientY - rect.top) / rect.height) * 100
    };
  };
  \<close>
  \<open>svgRef\<close> is \<open>None\<close> when \<^verbatim>\<open>svgRef.current\<close> is null, and the rectangle of the element
  otherwise. The quotients are those of the reals: for a rectangle of width or height 0,
  where IEEE arithmetic gives an infinity or NaN, the model has the quotient 0.
\<close>

definition getCoords :: "DOMRect option \<Rightarrow> real \<Rightarrow> real \<Rightarrow> Point" where
  "getCoords svgRef clientX clientY =
     (case svgRef of
        None \<Rightarrow> \<lparr> px = 0, py = 0 \<rparr>
      | Some rect \<Rightarrow>
          \<lparr> px = ((clientX - left rect) / width rect) * 100,
            py = ((clientY - top' rect) / height rect) * 100 \<rparr>)"

text \<open>
  \<^verbatim>\<open>
  const handleWindowMouseMove = (e: MouseEvent) => {
    const currentShapes = shapesRef.current;
    const currentId = selectedShapeIdRef.current;
    if (!currentId) return;
    const shape = currentShapes.find(s => s.id === currentId);
    if (!shape) return;
    const point = getCoords(e.clientX, e.clientY);
    point.x = Math.max(0, Math.min(100, point.x));
    point.y = Math.max(0, Math.min(100, point.y));
    const newPoints = [...shape.points];
    newPoints[draggedPointIndex] = point;
    onShapeUpdate({ ...shape, points: newPoints });
  };
  \<close>
  The listener exists only while \<^verbatim>\<open>draggedPointIndex\<close> is not null. \<^verbatim>\<open>!currentId\<close> holds for
  null and for the empty string. The result is the shape handed to \<^verbatim>\<open>onShapeUpdate\<close>, or
  \<open>None\<close> when the handler returns before that call.
\<close>

definition handleWindowMouseMove ::
    "DOMRect option \<Rightarrow> UIState \<Rightarrow> real \<Rightarrow> real \<Rightarrow> Shape option" where
  "handleWindowMouseMove svgRef st clientX clientY =
     (case draggedPointIndex st of
        None \<Rightarrow> None
      | Some idx \<Rightarrow>
         (case selectedShapeId st of
            None \<Rightarrow> None
          | Some currentId \<Rightarrow>
              if currentId = [] then None
              else
                (case find (\<lambda>s. id' s = currentId) (shapes st) of
                   None \<Rightarrow> None
                 | Some shape \<Rightarrow>
                     let point = getCoords svgRef clientX clientY;
                         point = point\<lparr> px := max 0 (min 100 (px point)) \<rparr>;
                         point = point\<lparr> py := max 0 (min 100 (py point)) \<rparr>;
                         newPoints = arraySet (points shape) idx point
                     in Some (shape\<lparr> points := newPoints \<rparr>))))"


subsection \<open>\<^verbatim>\<open>ProjectionCanvas.tsx\<close>: is a shape lit?\<close>

text \<open>The object \<^verbatim>\<open>{ active, velocity }\<close> that \<^verbatim>\<open>isShapeActive\<close> returns; while the loops run it
  holds the local variables \<^verbatim>\<open>isActive\<close> and \<^verbatim>\<open>maxVelocity\<close>.\<close>

record Activation =
  active :: bool
  velocity :: int

text \<open>
  \<^verbatim>\<open>
  for (let ch = 1; ch <= 16; ch++) {
     const key = getNoteKey(ch, note);
     if (activeNotes.has(key)) {
       isActive = true;
       maxVelocity = Math.max(maxVelocity, activeNotes.get(key)!.velocity);
     }
  }
  \<close>
\<close>

function channelLoop :: "ActiveNotesMap \<Rightarrow> int \<Rightarrow> int \<Rightarrow> Activation \<Rightarrow> Activation" where
  "channelLoop activeNotes n ch acc =
     (if ch \<le> 16
      then channelLoop activeNotes n (ch + 1)
             (case activeNotes (getNoteKey (Num ch) (Num n)) of
                None \<Rightarrow> acc
              | Some e \<Rightarrow> \<lparr> active = True,
                            velocity = max (Activation.velocity acc) (ActiveNote.velocity e) \<rparr>)
      else acc)"
  by pat_completeness auto
termination
  by (relation "measure (\<lambda>(activeNotes, n, ch, acc). nat (17 - ch))") auto

declare channelLoop.simps [simp del]

text \<open>
  \<^verbatim>\<open>
  for (let note = shape.noteStart; note <= shape.noteEnd; note++) {
    if (shape.channel === 0) {
      for (let ch = 1; ch <= 16; ch++) { ... }
    } else {
      const key = getNoteKey(shape.channel, note);
      if (activeNotes.has(key)) {
        isActive = true;
        maxVelocity = Math.max(maxVelocity, activeNotes.get(key)!.velocity);
      }
    }
  }
  \<close>
\<close>

function noteLoop :: "ActiveNotesMap \<Rightarrow> Shape \<Rightarrow> int \<Rightarrow> Activation \<Rightarrow> Activation" where
  "noteLoop activeNotes shape n acc =
     (if n \<le> noteEnd shape
      then noteLoop activeNotes shape (n + 1)
             (if Shape.channel shape = 0
              then channelLoop activeNotes n 1 acc
              else (case activeNotes (getNoteKey (Num (Shape.channel shape)) (Num n)) of
                      None \<Rightarrow> acc
                    | Some e \<Rightarrow> \<lparr> active = True,
                                  velocity = max (Activation.velocity acc) (ActiveNote.velocity e) \<rparr>))
      else acc)"
  by pat_completeness auto
termination
  by (relation "measure (\<lambda>(activeNotes, shape, n, acc). nat (noteEnd shape + 1 - n))") auto

declare noteLoop.simps [simp del]

text \<open>
  \<^verbatim>\<open>
  const isShapeActive = (shape: Shape): { active: boolean; velocity: number } => {
    let maxVelocity = 0;
    let isActive = false;
    for (...) { ... }
    return { active: isActive, velocity: maxVelocity };
  };
  \<close>
\<close>

definition isShapeActive :: "ActiveNotesMap \<Rightarrow> Shape \<Rightarrow> Activation" where
  "isShapeActive activeNotes shape =
     noteLoop activeNotes shape (noteStart shape) \<lparr> active = False, velocity = 0 \<rparr>"

text \<open>
  The fill opacity of a shape, as the render computes it:
  \<^verbatim>\<open>
  const { active, velocity } = isShapeActive(shape);
  let opacity = 0;
  if (active) {
    opacity = shape.velocitySensitive
      ? (velocity / 127) * shape.baseOpacity
      : shape.baseOpacity;
  } else if (mode === AppMode.EDIT) {
     opacity = 0.2;
  }
  \<close>
\<close>

definition shapeOpacity :: "AppMode \<Rightarrow> ActiveNotesMap \<Rightarrow> Shape \<Rightarrow> real" where
  "shapeOpacity md activeNotes shape =
     (let r = isShapeActive activeNotes shape
      in if active r
         then (if velocitySensitive shape
               then (real_of_int (Activation.velocity r) / 127) * baseOpacity shape
               else baseOpacity shape)
         else if md = EDIT then 0.2
         else 0)"

subsection \<open>The vocabulary of the specification\<close>

text \<open>
  The entries of a snapshot that a region matches: those stored under the key of a pair
  \<open>(c, n)\<close> with \<open>n\<close> in the inclusive note range, and \<open>c\<close> the channel filter of the region,
  or any of the channels 1 to 16 when the filter is 0 (omni).
\<close>

definition matchingEntries :: "ActiveNotesMap \<Rightarrow> Shape \<Rightarrow> ActiveNote set" where
  "matchingEntries activeNotes shape =
     {e. \<exists>c n. noteStart shape \<le> n \<and> n \<le> noteEnd shape
            \<and> (if Shape.channel shape = 0 then 1 \<le> c \<and> c \<le> 16 else c = Shape.channel shape)
            \<and> activeNotes (getNoteKey (Num c) (Num n)) = Some e}"

text \<open>
  The note-on and note-off messages of a sequence that are addressed to the pair \<open>(c, n)\<close>,
  in their order of arrival.
\<close>

definition eventsFor :: "int \<Rightarrow> jsnum \<Rightarrow> (u8 list \<times> int) list \<Rightarrow> MidiParsed list" where
  "eventsFor c n evs =
     filter (\<lambda>p. (command p = 8 \<or> command p = 9) \<and> MidiParsed.channel p = c \<and> note p = n)
       (map (\<lambda>ev. parseMidiMessage (fst ev)) evs)"

text \<open>The last message addressed to \<open>(c, n)\<close> exists and is a note-on with a velocity above 0.\<close>

definition lastIsNoteOn :: "int \<Rightarrow> jsnum \<Rightarrow> (u8 list \<times> int) list \<Rightarrow> bool" where
  "lastIsNoteOn c n evs =
     (case rev (eventsFor c n evs) of
        [] \<Rightarrow> False
      | p # _ \<Rightarrow> command p = 9 \<and> MidiParsed.velocity p > 0)"

subsection \<open>Auxiliary notions for the proofs\<close>

text \<open>The characters \<^verbatim>\<open>0\<close> to \<^verbatim>\<open>9\<close>.\<close>

definition isDigit :: "char \<Rightarrow> bool" where
  "isDigit c = (48 \<le> (of_char c :: nat) \<and> (of_char c :: nat) \<le> 57)"

text \<open>Reading a decimal numeral back, the inverse of \<^const>\<open>showNat\<close>.\<close>

definition readNat :: "string \<Rightarrow> nat" where
  "readNat s = foldl (\<lambda>a c. 10 * a + (of_char c - 48)) 0 s"

text \<open>One pass of the body shared by both loops of \<^verbatim>\<open>isShapeActive\<close>: look the key up and, when
  it is there, set the flag and raise the maximum.\<close>

definition visit :: "ActiveNotesMap \<Rightarrow> string \<Rightarrow> Activation \<Rightarrow> Activation" where
  "visit activeNotes key acc =
     (case activeNotes key of
        None \<Rightarrow> acc
      | Some e \<Rightarrow> \<lparr> active = True,
                    velocity = max (Activation.velocity acc) (ActiveNote.velocity e) \<rparr>)"

text \<open>The keys that \<^verbatim>\<open>isShapeActive\<close> looks up for one note, and for the whole range, in the
  order of the loops.\<close>

definition keysOfNote :: "Shape \<Rightarrow> int \<Rightarrow> string list" where
  "keysOfNote shape n =
     (if Shape.channel shape = 0 then map (\<lambda>c. getNoteKey (Num c) (Num n)) [1..16]
      else [getNoteKey (Num (Shape.channel shape)) (Num n)])"

definition scannedKeys :: "Shape \<Rightarrow> string list" where
  "scannedKeys shape = concat (map (keysOfNote shape) [noteStart shape..noteEnd shape])"

subsection \<open>Concrete scenarios\<close>

text \<open>A region with a given channel filter, note range, velocity mode and base opacity.\<close>

definition exampleRegion :: "int \<Rightarrow> int \<Rightarrow> int \<Rightarrow> bool \<Rightarrow> real \<Rightarrow> Shape" where
  "exampleRegion ch lo hi vs base =
     \<lparr> id' = ''r'', name = ''Shape 1'', points = [], channel = ch, noteStart = lo, noteEnd = hi,
       color = ''#00ffcc'', velocitySensitive = vs, baseOpacity = base \<rparr>"

text \<open>Three vertices, a drawing session holding given points, a drag of vertex \<open>idx\<close> of a
  selected triangle, and a surface of 200 by 100 pixels at the origin.\<close>

definition examplePoints :: "Point jsarray" where
  "examplePoints = [Some \<lparr> px = 10, py = 10 \<rparr>, Some \<lparr> px = 50, py = 10 \<rparr>, Some \<lparr> px = 30, py = 40 \<rparr>]"

definition drawingState :: "Point jsarray \<Rightarrow> UIState" where
  "drawingState pts =
     \<lparr> shapes = [], selectedShapeId = None, mode = EDIT,
       drawingPoints = pts, isDrawing = True, draggedPointIndex = None \<rparr>"



section \<open>Rendering of numbers and the composite key\<close>

lemma isDigit_digitChar: "d < 10 \<Longrightarrow> isDigit (digitChar d)"
  by (simp add: isDigit_def digitChar_def)

lemma of_char_digitChar: "d < 10 \<Longrightarrow> (of_char (digitChar d) :: nat) = 48 + d"
  by (simp add: digitChar_def)

lemma showNat_digits: "c \<in> set (showNat n) \<Longrightarrow> isDigit c"
proof (induction n arbitrary: c rule: showNat.induct)
  case (1 n)
  show ?case
  proof (cases "n < 10")
    case True
    with "1.prems" show ?thesis
      by (simp add: showNat.simps [of n] isDigit_digitChar)
  next
    case False
    with "1.prems" "1.IH" show ?thesis
      by (auto simp: showNat.simps [of n] isDigit_digitChar)
  qed
qed

lemma showNat_nonempty: "showNat n \<noteq> []"
  by (subst showNat.simps) simp

lemma readNat_showNat: "readNat (showNat n) = n"
proof (induction n rule: showNat.induct)
  case (1 n)
  show ?case
  proof (cases "n < 10")
    case True
    then show ?thesis
      by (simp add: showNat.simps [of n] readNat_def of_char_digitChar)
  next
    case False
    with "1.IH" show ?thesis
      by (simp add: showNat.simps [of n] readNat_def of_char_digitChar)
  qed
qed

lemma showNat_inject: "showNat m = showNat n \<Longrightarrow> m = n"
  by (metis readNat_showNat)

lemma dash_not_digit: "\<not> isDigit CHR ''-''" by (simp add: isDigit_def)
lemma u_not_digit: "\<not> isDigit CHR ''u''" by (simp add: isDigit_def)

lemma dash_notin_showNat: "CHR ''-'' \<notin> set (showNat n)"
  using showNat_digits dash_not_digit by blast

lemma hd_showNat_digit: "isDigit (hd (showNat n))"
  using showNat_digits [of "hd (showNat n)" n] showNat_nonempty [of n] by simp

lemma showInt_inject: "showInt i = showInt j \<Longrightarrow> i = j"
proof -
  assume eq: "showInt i = showInt j"
  have neg_pos: False if "a < 0" "\<not> b < 0" "showInt a = showInt b" for a b
  proof -
    from that have "hd (showNat (nat b)) = CHR ''-''"
      by (simp add: showInt_def) (metis list.sel(1))
    with hd_showNat_digit [of "nat b"] dash_not_digit show False by simp
  qed
  consider "i < 0" "j < 0" | "i < 0" "\<not> j < 0" | "\<not> i < 0" "j < 0" | "\<not> i < 0" "\<not> j < 0"
    by blast
  then show ?thesis
  proof cases
    case 1
    with eq have "nat (- i) = nat (- j)"
      by (simp add: showInt_def showNat_inject)
    with 1 show ?thesis by simp
  next
    case 2
    with eq neg_pos [of i j] show ?thesis by simp
  next
    case 3
    with eq neg_pos [of j i] show ?thesis by simp
  next
    case 4
    with eq have "nat i = nat j"
      by (simp add: showInt_def showNat_inject)
    with 4 show ?thesis by simp
  qed
qed

lemma toString_inject: "toString a = toString b \<Longrightarrow> a = b"
proof (cases a; cases b)
  fix i j assume "a = Num i" "b = Num j" "toString a = toString b"
  then show ?thesis by (simp add: showInt_inject)
next
  fix i assume ab: "a = Num i" "b = Undefined" and eq: "toString a = toString b"
  have "hd (showInt i) = CHR ''-'' \<or> isDigit (hd (showInt i))"
    by (simp add: showInt_def hd_showNat_digit)
  with ab eq show ?thesis by (auto simp: u_not_digit)
next
  fix i assume ab: "a = Undefined" "b = Num i" and eq: "toString a = toString b"
  have "hd (showInt i) = CHR ''-'' \<or> isDigit (hd (showInt i))"
    by (simp add: showInt_def hd_showNat_digit)
  with ab eq [symmetric] show ?thesis by (auto simp: u_not_digit)
qed simp

text \<open>A rendered value followed by the separator can be read back from the front of a string.\<close>

lemma split_at_separator:
  "x \<notin> set xs \<Longrightarrow> x \<notin> set ys \<Longrightarrow> xs @ x # r = ys @ x # s \<Longrightarrow> xs = ys \<and> r = s"
proof (induction xs arbitrary: ys)
  case Nil
  then show ?case by (cases ys) auto
next
  case (Cons a xs)
  then show ?case by (cases ys) auto
qed

lemma toString_shape:
  "\<exists>xs. CHR ''-'' \<notin> set xs \<and> xs \<noteq> [] \<and> (toString a = xs \<or> toString a = CHR ''-'' # xs)"
proof (cases a)
  case (Num i)
  then show ?thesis
  proof (cases "i < 0")
    case True
    with Num have "toString a = CHR ''-'' # showNat (nat (- i))" by (simp add: showInt_def)
    with dash_notin_showNat showNat_nonempty show ?thesis by blast
  next
    case False
    with Num have "toString a = showNat (nat i)" by (simp add: showInt_def)
    with dash_notin_showNat showNat_nonempty show ?thesis by blast
  qed
next
  case Undefined
  then show ?thesis by simp
qed

lemma toString_dash_prefix:
  assumes "toString a @ CHR ''-'' # r = toString b @ CHR ''-'' # s"
  shows "toString a = toString b \<and> r = s"
proof -
  obtain xs where xs: "CHR ''-'' \<notin> set xs" "xs \<noteq> []"
      "toString a = xs \<or> toString a = CHR ''-'' # xs"
    using toString_shape [of a] by blast
  obtain ys where ys: "CHR ''-'' \<notin> set ys" "ys \<noteq> []"
      "toString b = ys \<or> toString b = CHR ''-'' # ys"
    using toString_shape [of b] by blast
  have hdx: "hd xs \<noteq> CHR ''-''" using xs by (cases xs) auto
  have hdy: "hd ys \<noteq> CHR ''-''" using ys by (cases ys) auto
  from xs(3) ys(3) show ?thesis
  proof (elim disjE)
    assume "toString a = xs" "toString b = ys"
    with assms split_at_separator [OF xs(1) ys(1), of r s] show ?thesis by simp
  next
    assume "toString a = CHR ''-'' # xs" "toString b = CHR ''-'' # ys"
    with assms split_at_separator [OF xs(1) ys(1), of r s] show ?thesis by simp
  next
    assume "toString a = xs" "toString b = CHR ''-'' # ys"
    with assms have "hd (xs @ CHR ''-'' # r) = CHR ''-''" by simp
    with xs(2) hdx show ?thesis by simp
  next
    assume "toString a = CHR ''-'' # xs" "toString b = ys"
    with assms have "hd (ys @ CHR ''-'' # s) = CHR ''-''" by (metis append_Cons list.sel(1))
    with ys(2) hdy show ?thesis by simp
  qed
qed

lemma getNoteKey_inject:
  "getNoteKey c1 n1 = getNoteKey c2 n2 \<Longrightarrow> c1 = c2 \<and> n1 = n2"
proof -
  assume "getNoteKey c1 n1 = getNoteKey c2 n2"
  then have "toString c1 @ CHR ''-'' # toString n1 = toString c2 @ CHR ''-'' # toString n2"
    by (simp add: getNoteKey_def)
  then have "toString c1 = toString c2 \<and> toString n1 = toString n2"
    by (rule toString_dash_prefix)
  then show ?thesis by (simp add: toString_inject)
qed

section \<open>The decoder and the store of active notes\<close>

lemma uint_high_nibble: "uint (drop_bit 4 (b :: u8)) = uint b div 16"
  by (simp add: drop_bit_eq_div uint_div_distrib)

lemma uint_low_nibble: "uint ((b :: u8) AND 0xf) = uint b mod 16"
proof -
  have "(0xf :: u8) = mask 4" by (simp add: mask_eq_exp_minus_1)
  then have "b AND 0xf = take_bit 4 b" by (simp only: take_bit_eq_mask)
  then show ?thesis by (simp add: take_bit_eq_mod uint_mod_distrib)
qed

lemma parse_fields:
  "command (parseMidiMessage data) = (case byteAt data 0 of None \<Rightarrow> 0 | Some b \<Rightarrow> uint (drop_bit 4 b))"
  "MidiParsed.channel (parseMidiMessage data) = (case byteAt data 0 of None \<Rightarrow> 0 | Some b \<Rightarrow> uint (b AND 0xf)) + 1"
  "note (parseMidiMessage data) = (case byteAt data 1 of None \<Rightarrow> Undefined | Some b \<Rightarrow> Num (uint b))"
  "MidiParsed.velocity (parseMidiMessage data) = (if length data > 2 then uint (data ! 2) else 0)"
  by (simp_all add: parseMidiMessage_def)

lemma velocity_nonneg: "0 \<le> MidiParsed.velocity (parseMidiMessage data)"
  by (simp add: parse_fields)

text \<open>
  Claim C5. On a message of at least two bytes the decoder returns as command the high nibble
  of byte 0 (between 0 and 15), as channel the low nibble of byte 0 plus 1 (between 1 and
  16), as note byte 1, and as velocity byte 2 when there is a third byte and 0 otherwise.
  The decoder is a function of its argument alone, defined on every byte sequence.
\<close>

theorem parseMidiMessage_decodes:
  assumes "2 \<le> length data"
  shows "parseMidiMessage data =
           \<lparr> command = uint (data ! 0) div 16,
             channel = uint (data ! 0) mod 16 + 1,
             note = Num (uint (data ! 1)),
             velocity = (if 2 < length data then uint (data ! 2) else 0) \<rparr>
         \<and> 0 \<le> command (parseMidiMessage data) \<and> command (parseMidiMessage data) \<le> 15
         \<and> 1 \<le> MidiParsed.channel (parseMidiMessage data)
         \<and> MidiParsed.channel (parseMidiMessage data) \<le> 16"
proof -
  from assms have b: "byteAt data 0 = Some (data ! 0)" "byteAt data (Suc 0) = Some (data ! Suc 0)"
    by (auto simp: byteAt_def)
  have eq: "parseMidiMessage data =
           \<lparr> command = uint (data ! 0) div 16,
             channel = uint (data ! 0) mod 16 + 1,
             note = Num (uint (data ! 1)),
             velocity = (if 2 < length data then uint (data ! 2) else 0) \<rparr>"
    by (simp add: parseMidiMessage_def b uint_high_nibble uint_low_nibble)
  have lo: "0 \<le> uint (data ! 0)" by simp
  have hi: "uint (data ! 0) < 256" using uint_bounded [of "data ! 0"] by simp
  from lo hi have "0 \<le> uint (data ! 0) div 16 \<and> uint (data ! 0) div 16 \<le> 15
    \<and> 0 \<le> uint (data ! 0) mod 16 \<and> uint (data ! 0) mod 16 < 16"
    by presburger
  with eq show ?thesis by simp
qed

theorem parseMidiMessage_decodes_witness:
  "2 \<le> length [0x91, 61 :: u8]
   \<and> parseMidiMessage [0x91, 61] = \<lparr> command = 9, channel = 2, note = Num 61, velocity = 0 \<rparr>"
  using parseMidiMessage_decodes [of "[0x91, 61]"] by simp

lemma handle_unfold:
  "handleMidiMessage data now m =
     (if command (parseMidiMessage data) = 9 \<and> MidiParsed.velocity (parseMidiMessage data) > 0
      then m(getNoteKey (Num (MidiParsed.channel (parseMidiMessage data))) (note (parseMidiMessage data))
               \<mapsto> \<lparr> ActiveNote.velocity = MidiParsed.velocity (parseMidiMessage data), timestamp = now \<rparr>)
      else if command (parseMidiMessage data) = 8
              \<or> (command (parseMidiMessage data) = 9 \<and> MidiParsed.velocity (parseMidiMessage data) = 0)
      then m(getNoteKey (Num (MidiParsed.channel (parseMidiMessage data))) (note (parseMidiMessage data)) := None)
      else m)"
  by (simp add: handleMidiMessage_def Let_def)

lemma handle_other_key:
  assumes "MidiParsed.channel (parseMidiMessage data) \<noteq> c \<or> note (parseMidiMessage data) \<noteq> n"
  shows "handleMidiMessage data now m (getNoteKey (Num c) n) = m (getNoteKey (Num c) n)"
proof -
  have "getNoteKey (Num (MidiParsed.channel (parseMidiMessage data))) (note (parseMidiMessage data))
          \<noteq> getNoteKey (Num c) n"
    using assms getNoteKey_inject by blast
  then show ?thesis by (simp add: handle_unfold)
qed

text \<open>
  Claim C9. The composite key is injective on pairs of integers, so in particular on
  channels 1 to 16 and notes 0 to 127: equal keys come from equal channels and equal notes.
  Hence a message addressed to one pair never touches the entry of another pair.
\<close>

theorem getNoteKey_injective:
  "(getNoteKey (Num c1) (Num n1) = getNoteKey (Num c2) (Num n2) \<longrightarrow> c1 = c2 \<and> n1 = n2)
   \<and> (MidiParsed.channel (parseMidiMessage data) \<noteq> c2 \<or> note (parseMidiMessage data) \<noteq> Num n2
        \<longrightarrow> handleMidiMessage data now m (getNoteKey (Num c2) (Num n2))
              = m (getNoteKey (Num c2) (Num n2)))"
  using getNoteKey_inject [of "Num c1" "Num n1" "Num c2" "Num n2"]
    handle_other_key [of data c2 "Num n2" now m]
  by blast

theorem getNoteKey_injective_witness:
  "getNoteKey (Num 1) (Num 60) = getNoteKey (Num 1) (Num 60)
   \<and> getNoteKey (Num 1) (Num 60) \<noteq> getNoteKey (Num 16) (Num 0)
   \<and> MidiParsed.channel (parseMidiMessage [0x90, 60, 100]) \<noteq> 16
   \<and> handleMidiMessage [0x90, 60, 100] 5 [''16-0'' \<mapsto> \<lparr> ActiveNote.velocity = 90, timestamp = 1 \<rparr>]
        (getNoteKey (Num 16) (Num 0))
       = Some \<lparr> ActiveNote.velocity = 90, timestamp = 1 \<rparr>"
proof -
  have c: "MidiParsed.channel (parseMidiMessage [0x90, 60, 100]) \<noteq> 16"
    by (simp add: parse_fields byteAt_def)
  have k: "getNoteKey (Num 16) (Num 0) = ''16-0''" by code_simp
  show ?thesis
    using getNoteKey_injective [of 1 60 16 0 "[0x90, 60, 100]" 5
        "[''16-0'' \<mapsto> \<lparr> ActiveNote.velocity = 90, timestamp = 1 \<rparr>]"] c
    by (simp add: k)
qed

text \<open>
  Claim C10. A message whose command nibble is neither 8 nor 9 (control change, aftertouch,
  pitch bend, ...) leaves the map of active notes as it was.
\<close>

theorem other_commands_leave_map:
  assumes "command (parseMidiMessage data) \<noteq> 8" and "command (parseMidiMessage data) \<noteq> 9"
  shows "handleMidiMessage data now m = m"
  using assms by (simp add: handle_unfold)

theorem other_commands_leave_map_witness:
  "command (parseMidiMessage [0xB0, 7, 100]) = 11
   \<and> handleMidiMessage [0xB0, 7, 100] 5 [''1-60'' \<mapsto> \<lparr> ActiveNote.velocity = 100, timestamp = 1 \<rparr>]
       = [''1-60'' \<mapsto> \<lparr> ActiveNote.velocity = 100, timestamp = 1 \<rparr>]"
proof -
  have c: "command (parseMidiMessage [0xB0, 7, 100]) = 11"
    by (simp add: parse_fields byteAt_def)
  then show ?thesis
    using other_commands_leave_map [of "[0xB0, 7, 100]" 5 "[''1-60'' \<mapsto> \<lparr> ActiveNote.velocity = 100, timestamp = 1 \<rparr>]"]
    by simp
qed

text \<open>
  Claim C8. A note-off for a pair that has no entry in the map leaves the map unchanged; the
  handler has no failing branch.
\<close>

theorem noteOff_absent_is_noop:
  assumes "command (parseMidiMessage data) = 8"
    and "m (getNoteKey (Num (MidiParsed.channel (parseMidiMessage data))) (note (parseMidiMessage data))) = None"
  shows "handleMidiMessage data now m = m"
  using assms by (auto simp: handle_unfold)

theorem noteOff_absent_is_noop_witness:
  "command (parseMidiMessage [0x80, 60, 0]) = 8
   \<and> [''1-61'' \<mapsto> \<lparr> ActiveNote.velocity = 100, timestamp = 1 \<rparr>]
        (getNoteKey (Num (MidiParsed.channel (parseMidiMessage [0x80, 60, 0]))) (note (parseMidiMessage [0x80, 60, 0]))) = None
   \<and> handleMidiMessage [0x80, 60, 0] 5 [''1-61'' \<mapsto> \<lparr> ActiveNote.velocity = 100, timestamp = 1 \<rparr>]
       = [''1-61'' \<mapsto> \<lparr> ActiveNote.velocity = 100, timestamp = 1 \<rparr>]"
proof -
  have p: "command (parseMidiMessage [0x80, 60, 0]) = 8"
    "MidiParsed.channel (parseMidiMessage [0x80, 60, 0]) = 1"
    "note (parseMidiMessage [0x80, 60, 0]) = Num 60"
    by (simp_all add: parse_fields byteAt_def)
  have k: "getNoteKey (Num 1) (Num 60) = ''1-60''" by code_simp
  have a: "[''1-61'' \<mapsto> \<lparr> ActiveNote.velocity = 100, timestamp = 1 \<rparr>]
        (getNoteKey (Num (MidiParsed.channel (parseMidiMessage [0x80, 60, 0]))) (note (parseMidiMessage [0x80, 60, 0]))) = None"
    by (simp add: p k)
  from p(1) a show ?thesis
    using noteOff_absent_is_noop [of "[0x80, 60, 0]" "[''1-61'' \<mapsto> \<lparr> ActiveNote.velocity = 100, timestamp = 1 \<rparr>]" 5]
    by simp
qed

text \<open>
  Claim C6. A note-on with velocity 0 for a channel and a note gives the same map as a note-off
  for that channel and note, whatever the map before and the times of arrival; afterwards
  the map has no entry for the pair.
\<close>

theorem noteOn_zero_is_noteOff:
  assumes "command (parseMidiMessage d_on) = 9" and "MidiParsed.velocity (parseMidiMessage d_on) = 0"
    and "command (parseMidiMessage d_off) = 8"
    and "MidiParsed.channel (parseMidiMessage d_on) = MidiParsed.channel (parseMidiMessage d_off)"
    and "note (parseMidiMessage d_on) = note (parseMidiMessage d_off)"
  shows "handleMidiMessage d_on t m = handleMidiMessage d_off t' m
       \<and> handleMidiMessage d_on t m
           (getNoteKey (Num (MidiParsed.channel (parseMidiMessage d_on))) (note (parseMidiMessage d_on))) = None"
  using assms by (simp add: handle_unfold)

theorem noteOn_zero_is_noteOff_witness:
  "command (parseMidiMessage [0x90, 60, 0]) = 9 \<and> MidiParsed.velocity (parseMidiMessage [0x90, 60, 0]) = 0
   \<and> command (parseMidiMessage [0x80, 60, 64]) = 8
   \<and> MidiParsed.channel (parseMidiMessage [0x90, 60, 0]) = MidiParsed.channel (parseMidiMessage [0x80, 60, 64])
   \<and> note (parseMidiMessage [0x90, 60, 0]) = note (parseMidiMessage [0x80, 60, 64])
   \<and> handleMidiMessage [0x90, 60, 0] 7 [''1-60'' \<mapsto> \<lparr> ActiveNote.velocity = 100, timestamp = 1 \<rparr>]
       = handleMidiMessage [0x80, 60, 64] 9 [''1-60'' \<mapsto> \<lparr> ActiveNote.velocity = 100, timestamp = 1 \<rparr>]
   \<and> handleMidiMessage [0x90, 60, 0] 7 [''1-60'' \<mapsto> \<lparr> ActiveNote.velocity = 100, timestamp = 1 \<rparr>] ''1-60'' = None"
proof -
  have p: "command (parseMidiMessage [0x90, 60, 0]) = 9" "MidiParsed.velocity (parseMidiMessage [0x90, 60, 0]) = 0"
    "command (parseMidiMessage [0x80, 60, 64]) = 8"
    "MidiParsed.channel (parseMidiMessage [0x90, 60, 0]) = 1"
    "MidiParsed.channel (parseMidiMessage [0x80, 60, 64]) = 1"
    "note (parseMidiMessage [0x90, 60, 0]) = Num 60"
    "note (parseMidiMessage [0x80, 60, 64]) = Num 60"
    by (simp_all add: parse_fields byteAt_def)
  have k: "getNoteKey (Num 1) (Num 60) = ''1-60''" by code_simp
  show ?thesis
    using noteOn_zero_is_noteOff [of "[0x90, 60, 0]" "[0x80, 60, 64]" 7
        "[''1-60'' \<mapsto> \<lparr> ActiveNote.velocity = 100, timestamp = 1 \<rparr>]" 9]
    by (auto simp: p k)
qed

section \<open>Replaying a sequence of messages\<close>

lemma replay_snoc: "replay (evs @ [(d, t)]) m = handleMidiMessage d t (replay evs m)"
  by (induction evs arbitrary: m) auto

lemma eventsFor_snoc:
  "eventsFor c n (evs @ [(d, t)]) =
     eventsFor c n evs @
       (if (command (parseMidiMessage d) = 8 \<or> command (parseMidiMessage d) = 9)
           \<and> MidiParsed.channel (parseMidiMessage d) = c \<and> note (parseMidiMessage d) = n
        then [parseMidiMessage d] else [])"
  by (simp add: eventsFor_def)

lemma lastIsNoteOn_snoc:
  "lastIsNoteOn c n (evs @ [(d, t)]) =
     (if (command (parseMidiMessage d) = 8 \<or> command (parseMidiMessage d) = 9)
         \<and> MidiParsed.channel (parseMidiMessage d) = c \<and> note (parseMidiMessage d) = n
      then command (parseMidiMessage d) = 9 \<and> MidiParsed.velocity (parseMidiMessage d) > 0
      else lastIsNoteOn c n evs)"
proof (cases "(command (parseMidiMessage d) = 8 \<or> command (parseMidiMessage d) = 9)
         \<and> MidiParsed.channel (parseMidiMessage d) = c \<and> note (parseMidiMessage d) = n")
  case True
  have "eventsFor c n (evs @ [(d, t)]) = eventsFor c n evs @ [parseMidiMessage d]"
    by (simp only: eventsFor_snoc if_P [OF True])
  then show ?thesis by (simp only: lastIsNoteOn_def if_P [OF True]) simp
next
  case False
  have "eventsFor c n (evs @ [(d, t)]) = eventsFor c n evs"
    by (simp only: eventsFor_snoc if_not_P [OF False] append_Nil2)
  then show ?thesis by (simp only: lastIsNoteOn_def if_not_P [OF False])
qed

lemma handle_same_key:
  assumes "MidiParsed.channel (parseMidiMessage d) = c" "note (parseMidiMessage d) = n"
    "command (parseMidiMessage d) = 8 \<or> command (parseMidiMessage d) = 9"
  shows "(getNoteKey (Num c) n \<in> dom (handleMidiMessage d t m))
           = (command (parseMidiMessage d) = 9 \<and> MidiParsed.velocity (parseMidiMessage d) > 0)"
  using assms velocity_nonneg [of d] by (auto simp: handle_unfold)

lemma handle_not_addressed:
  assumes "\<not> ((command (parseMidiMessage d) = 8 \<or> command (parseMidiMessage d) = 9)
              \<and> MidiParsed.channel (parseMidiMessage d) = c \<and> note (parseMidiMessage d) = n)"
  shows "handleMidiMessage d t m (getNoteKey (Num c) n) = m (getNoteKey (Num c) n)"
proof (cases "command (parseMidiMessage d) = 8 \<or> command (parseMidiMessage d) = 9")
  case True
  with assms show ?thesis by (simp add: handle_other_key)
next
  case False
  then show ?thesis by (simp add: handle_unfold)
qed

lemma replay_sounding:
  "(getNoteKey (Num c) n \<in> dom (replay evs Map.empty)) = lastIsNoteOn c n evs"
proof (induction evs rule: rev_induct)
  case Nil
  show ?case by (simp add: lastIsNoteOn_def eventsFor_def)
next
  case (snoc ev evs)
  obtain d t where ev: "ev = (d, t)" by (cases ev)
  show ?case
  proof (cases "(command (parseMidiMessage d) = 8 \<or> command (parseMidiMessage d) = 9)
              \<and> MidiParsed.channel (parseMidiMessage d) = c \<and> note (parseMidiMessage d) = n")
    case True
    have "lastIsNoteOn c n (evs @ [(d, t)])
        = (command (parseMidiMessage d) = 9 \<and> MidiParsed.velocity (parseMidiMessage d) > 0)"
      by (simp only: lastIsNoteOn_snoc if_P [OF True])
    moreover from True
    have "(getNoteKey (Num c) n \<in> dom (handleMidiMessage d t (replay evs Map.empty)))
        = (command (parseMidiMessage d) = 9 \<and> MidiParsed.velocity (parseMidiMessage d) > 0)"
      using handle_same_key [of d c n t "replay evs Map.empty"] by blast
    ultimately show ?thesis by (simp add: ev replay_snoc)
  next
    case False
    have "lastIsNoteOn c n (evs @ [(d, t)]) = lastIsNoteOn c n evs"
      by (simp only: lastIsNoteOn_snoc if_not_P [OF False])
    moreover from False
    have "handleMidiMessage d t (replay evs Map.empty) (getNoteKey (Num c) n)
            = replay evs Map.empty (getNoteKey (Num c) n)"
      by (rule handle_not_addressed)
    then have "(getNoteKey (Num c) n \<in> dom (handleMidiMessage d t (replay evs Map.empty)))
            = (getNoteKey (Num c) n \<in> dom (replay evs Map.empty))"
      by (simp add: dom_def)
    ultimately show ?thesis using snoc.IH by (simp add: ev replay_snoc)
  qed
qed

lemma handle_dom_keys:
  "k \<in> dom (handleMidiMessage d t m) \<Longrightarrow>
     k \<in> dom m \<or> k = getNoteKey (Num (MidiParsed.channel (parseMidiMessage d))) (note (parseMidiMessage d))"
  by (auto simp: handle_unfold split: if_splits)

lemma replay_keys:
  "k \<in> dom (replay evs Map.empty) \<Longrightarrow> \<exists>c n. k = getNoteKey (Num c) n"
proof (induction evs arbitrary: k rule: rev_induct)
  case Nil
  then show ?case by simp
next
  case (snoc ev evs)
  obtain d t where ev: "ev = (d, t)" by (cases ev)
  from snoc.prems have "k \<in> dom (handleMidiMessage d t (replay evs Map.empty))"
    by (simp add: ev replay_snoc)
  then show ?case using handle_dom_keys snoc.IH by blast
qed

text \<open>
  Claim C3. After any finite sequence of messages handled in order from the empty map, the
  keys of the map are exactly the keys of the pairs (channel, note) whose last note-on or
  note-off message in the sequence is a note-on with a velocity above 0; by the injectivity
  of the key, a pair has an entry if and only if its last message is such a note-on.
\<close>

theorem store_tracks_last_event:
  "dom (replay evs Map.empty) = {getNoteKey (Num c) n | c n. lastIsNoteOn c n evs}
   \<and> (\<forall>c n. (getNoteKey (Num c) n \<in> dom (replay evs Map.empty)) = lastIsNoteOn c n evs)"
proof -
  have "dom (replay evs Map.empty) = {getNoteKey (Num c) n | c n. lastIsNoteOn c n evs}"
  proof (rule set_eqI)
    fix k
    show "(k \<in> dom (replay evs Map.empty)) = (k \<in> {getNoteKey (Num c) n | c n. lastIsNoteOn c n evs})"
      using replay_keys [of k evs] replay_sounding [of _ _ evs] by blast
  qed
  moreover have "\<forall>c n. (getNoteKey (Num c) n \<in> dom (replay evs Map.empty)) = lastIsNoteOn c n evs"
    using replay_sounding by blast
  ultimately show ?thesis by (rule conjI)
qed

theorem store_tracks_last_event_witness:
  "dom (replay [([0x90, 60, 100], 1), ([0x91, 61, 80], 2), ([0x80, 60, 0], 3)] Map.empty)
     = {getNoteKey (Num c) n | c n.
          lastIsNoteOn c n [([0x90, 60, 100], 1), ([0x91, 61, 80], 2), ([0x80, 60, 0], 3)]}
   \<and> lastIsNoteOn 2 (Num 61) [([0x90, 60, 100], 1), ([0x91, 61, 80], 2), ([0x80, 60, 0], 3)]
   \<and> \<not> lastIsNoteOn 1 (Num 60) [([0x90, 60, 100], 1), ([0x91, 61, 80], 2), ([0x80, 60, 0], 3)]
   \<and> getNoteKey (Num 2) (Num 61) \<in> dom (replay [([0x90, 60, 100], 1), ([0x91, 61, 80], 2), ([0x80, 60, 0], 3)] Map.empty)
   \<and> getNoteKey (Num 1) (Num 60) \<notin> dom (replay [([0x90, 60, 100], 1), ([0x91, 61, 80], 2), ([0x80, 60, 0], 3)] Map.empty)"
proof -
  have a: "lastIsNoteOn 2 (Num 61) [([0x90, 60, 100], 1), ([0x91, 61, 80], 2), ([0x80, 60, 0], 3)]"
    by (simp add: lastIsNoteOn_def eventsFor_def parseMidiMessage_def byteAt_def)
  have b: "\<not> lastIsNoteOn 1 (Num 60) [([0x90, 60, 100], 1), ([0x91, 61, 80], 2), ([0x80, 60, 0], 3)]"
    by (simp add: lastIsNoteOn_def eventsFor_def parseMidiMessage_def byteAt_def)
  show ?thesis
    using store_tracks_last_event [of "[([0x90, 60, 100], 1), ([0x91, 61, 80], 2), ([0x80, 60, 0], 3)]"] a b
    by blast
qed

section \<open>The activation matcher\<close>

lemma visit_eq:
  "(case A k of None \<Rightarrow> acc
    | Some e \<Rightarrow> \<lparr> active = True, velocity = max (Activation.velocity acc) (ActiveNote.velocity e) \<rparr>)
   = visit A k acc"
  by (simp add: visit_def)

lemma channelLoop_fold:
  "channelLoop A n ch acc = fold (visit A) (map (\<lambda>c. getNoteKey (Num c) (Num n)) [ch..16]) acc"
proof (induction A n ch acc rule: channelLoop.induct)
  case (1 A n ch acc)
  show ?case
  proof (cases "ch \<le> 16")
    case True
    then have u: "[ch..16] = ch # [ch + 1..16]" by (simp add: upto_rec1)
    have "channelLoop A n ch acc
            = channelLoop A n (ch + 1) (visit A (getNoteKey (Num ch) (Num n)) acc)"
      using True by (subst channelLoop.simps) (simp add: visit_eq)
    also have "\<dots> = fold (visit A) (map (\<lambda>c. getNoteKey (Num c) (Num n)) [ch + 1..16])
                      (visit A (getNoteKey (Num ch) (Num n)) acc)"
      using "1.IH" [OF True] by (simp only: visit_eq)
    also have "\<dots> = fold (visit A) (map (\<lambda>c. getNoteKey (Num c) (Num n)) [ch..16]) acc"
      by (simp add: u)
    finally show ?thesis .
  next
    case False
    then show ?thesis by (subst channelLoop.simps) simp
  qed
qed

lemma fold_keysOfNote:
  "fold (visit A) (keysOfNote shape n) acc =
     (if Shape.channel shape = 0 then channelLoop A n 1 acc
      else visit A (getNoteKey (Num (Shape.channel shape)) (Num n)) acc)"
  by (simp add: keysOfNote_def channelLoop_fold)

lemma noteLoop_fold:
  "noteLoop A shape n acc = fold (visit A) (concat (map (keysOfNote shape) [n..noteEnd shape])) acc"
proof (induction A shape n acc rule: noteLoop.induct)
  case (1 A shape n acc)
  show ?case
  proof (cases "n \<le> noteEnd shape")
    case True
    then have u: "[n..noteEnd shape] = n # [n + 1..noteEnd shape]" by (simp add: upto_rec1)
    have "noteLoop A shape n acc
            = noteLoop A shape (n + 1) (fold (visit A) (keysOfNote shape n) acc)"
      using True by (subst noteLoop.simps) (simp add: visit_eq fold_keysOfNote)
    also have "\<dots> = fold (visit A) (concat (map (keysOfNote shape) [n + 1..noteEnd shape]))
                      (fold (visit A) (keysOfNote shape n) acc)"
      using "1.IH" [OF True] by (simp only: visit_eq fold_keysOfNote)
    also have "\<dots> = fold (visit A) (concat (map (keysOfNote shape) [n..noteEnd shape])) acc"
      by (simp add: u)
    finally show ?thesis .
  next
    case False
    then show ?thesis by (subst noteLoop.simps) simp
  qed
qed

lemma isShapeActive_fold:
  "isShapeActive A shape = fold (visit A) (scannedKeys shape) \<lparr> active = False, velocity = 0 \<rparr>"
  by (simp add: isShapeActive_def scannedKeys_def noteLoop_fold)

lemma fold_visit_active:
  "active (fold (visit A) ks acc) = (active acc \<or> (\<exists>k \<in> set ks. A k \<noteq> None))"
  by (induction ks arbitrary: acc) (auto simp: visit_def split: option.splits)

lemma fold_visit_ge: "Activation.velocity acc \<le> Activation.velocity (fold (visit A) ks acc)"
proof (induction ks arbitrary: acc)
  case Nil
  show ?case by simp
next
  case (Cons k ks)
  have "Activation.velocity acc \<le> Activation.velocity (visit A k acc)"
    by (simp add: visit_def split: option.splits)
  also have "\<dots> \<le> Activation.velocity (fold (visit A) ks (visit A k acc))" by (rule Cons.IH)
  finally show ?case by simp
qed

lemma fold_visit_upper:
  "k \<in> set ks \<Longrightarrow> A k = Some e \<Longrightarrow> ActiveNote.velocity e \<le> Activation.velocity (fold (visit A) ks acc)"
proof (induction ks arbitrary: acc)
  case Nil
  then show ?case by simp
next
  case (Cons k' ks)
  show ?case
  proof (cases "k = k'")
    case True
    with Cons.prems have "ActiveNote.velocity e \<le> Activation.velocity (visit A k' acc)"
      by (simp add: visit_def)
    also have "\<dots> \<le> Activation.velocity (fold (visit A) ks (visit A k' acc))" by (rule fold_visit_ge)
    finally show ?thesis by simp
  next
    case False
    with Cons.prems have "k \<in> set ks" by simp
    from Cons.IH [OF this Cons.prems(2)] show ?thesis by simp
  qed
qed

lemma fold_visit_attained:
  "Activation.velocity (fold (visit A) ks acc) = Activation.velocity acc
   \<or> (\<exists>k \<in> set ks. \<exists>e. A k = Some e \<and> Activation.velocity (fold (visit A) ks acc) = ActiveNote.velocity e)"
proof (induction ks arbitrary: acc)
  case Nil
  show ?case by simp
next
  case (Cons k ks)
  have v: "Activation.velocity (visit A k acc) = Activation.velocity acc
      \<or> (\<exists>e. A k = Some e \<and> Activation.velocity (visit A k acc) = ActiveNote.velocity e)"
    by (auto simp: visit_def max_def split: option.splits)
  from Cons.IH [of "visit A k acc"] v show ?case by auto
qed

lemma set_scannedKeys:
  "set (scannedKeys shape) =
     {getNoteKey (Num c) (Num n) | c n. noteStart shape \<le> n \<and> n \<le> noteEnd shape
        \<and> (if Shape.channel shape = 0 then 1 \<le> c \<and> c \<le> 16 else c = Shape.channel shape)}"
  by (fastforce simp: scannedKeys_def keysOfNote_def)

lemma matchingEntries_scanned:
  "matchingEntries A shape = {e. \<exists>k \<in> set (scannedKeys shape). A k = Some e}"
  by (auto simp: matchingEntries_def set_scannedKeys)

lemma finite_matchingEntries: "finite (matchingEntries A shape)"
proof -
  have "matchingEntries A shape \<subseteq> (\<lambda>k. the (A k)) ` set (scannedKeys shape)"
    by (force simp: matchingEntries_scanned)
  then show ?thesis by (rule finite_subset) simp
qed

lemma isShapeActive_active: "active (isShapeActive A shape) = (matchingEntries A shape \<noteq> {})"
  by (auto simp: isShapeActive_fold fold_visit_active matchingEntries_scanned)

lemma isShapeActive_velocity:
  "Activation.velocity (isShapeActive A shape) = Max (insert 0 (ActiveNote.velocity ` matchingEntries A shape))"
proof (rule Max_eqI [symmetric])
  show "finite (insert 0 (ActiveNote.velocity ` matchingEntries A shape))"
    by (simp add: finite_matchingEntries)
next
  fix y assume "y \<in> insert 0 (ActiveNote.velocity ` matchingEntries A shape)"
  then show "y \<le> Activation.velocity (isShapeActive A shape)"
    using fold_visit_ge [of "\<lparr> active = False, velocity = 0 \<rparr>" A "scannedKeys shape"]
      fold_visit_upper [of _ "scannedKeys shape" A]
    by (auto simp: isShapeActive_fold matchingEntries_scanned)
next
  show "Activation.velocity (isShapeActive A shape) \<in> insert 0 (ActiveNote.velocity ` matchingEntries A shape)"
    using fold_visit_attained [of A "scannedKeys shape" "\<lparr> active = False, velocity = 0 \<rparr>"]
    by (auto simp: isShapeActive_fold matchingEntries_scanned)
qed

lemma exampleRegion_fields:
  "Shape.channel (exampleRegion ch lo hi vs base) = ch"
  "noteStart (exampleRegion ch lo hi vs base) = lo"
  "noteEnd (exampleRegion ch lo hi vs base) = hi"
  "velocitySensitive (exampleRegion ch lo hi vs base) = vs"
  "baseOpacity (exampleRegion ch lo hi vs base) = base"
  by (simp_all add: exampleRegion_def)

lemma getNoteKey_eq_iff [simp]: "(getNoteKey a b = getNoteKey c d) = (a = c \<and> b = d)"
  using getNoteKey_inject by blast

text \<open>
  Claim C1. The matcher reports a region active if and only if there are a note \<open>n\<close> with
  \<open>noteStart \<le> n \<le> noteEnd\<close> and a channel \<open>c\<close>, equal to the channel filter when the filter
  is not 0 and any of 1 to 16 otherwise, such that the key of \<open>(c, n)\<close> is in the snapshot.
  In particular a region whose range has \<open>noteStart > noteEnd\<close> is inactive for every
  snapshot.
\<close>

theorem isShapeActive_iff:
  "active (isShapeActive A shape) =
     (\<exists>n c. noteStart shape \<le> n \<and> n \<le> noteEnd shape
          \<and> (if Shape.channel shape \<noteq> 0 then c = Shape.channel shape else 1 \<le> c \<and> c \<le> 16)
          \<and> getNoteKey (Num c) (Num n) \<in> dom A)
   \<and> (noteEnd shape < noteStart shape \<longrightarrow> \<not> active (isShapeActive A shape))"
proof -
  have "active (isShapeActive A shape) =
     (\<exists>n c. noteStart shape \<le> n \<and> n \<le> noteEnd shape
          \<and> (if Shape.channel shape \<noteq> 0 then c = Shape.channel shape else 1 \<le> c \<and> c \<le> 16)
          \<and> getNoteKey (Num c) (Num n) \<in> dom A)"
    unfolding isShapeActive_active matchingEntries_def by (auto simp: dom_def)
  then show ?thesis by auto
qed

theorem isShapeActive_iff_witness:
  "noteEnd (exampleRegion 0 62 60 False 1) < noteStart (exampleRegion 0 62 60 False 1)
   \<and> \<not> active (isShapeActive [getNoteKey (Num 2) (Num 61) \<mapsto> \<lparr> ActiveNote.velocity = 80, timestamp = 1 \<rparr>]
                  (exampleRegion 0 62 60 False 1))
   \<and> active (isShapeActive [getNoteKey (Num 2) (Num 61) \<mapsto> \<lparr> ActiveNote.velocity = 80, timestamp = 1 \<rparr>]
                  (exampleRegion 0 60 62 False 1))"
proof -
  let ?A = "[getNoteKey (Num 2) (Num 61) \<mapsto> \<lparr> ActiveNote.velocity = 80, timestamp = 1 \<rparr>]"
  have "\<exists>n c. 60 \<le> n \<and> n \<le> (62::int) \<and> 1 \<le> c \<and> c \<le> (16::int) \<and> getNoteKey (Num c) (Num n) \<in> dom ?A"
    by (rule exI [of _ 61], rule exI [of _ 2]) simp
  then show ?thesis
    using isShapeActive_iff [of ?A "exampleRegion 0 62 60 False 1"]
      isShapeActive_iff [of ?A "exampleRegion 0 60 62 False 1"]
    by (simp add: exampleRegion_fields)
qed

text \<open>
  Claim C2, amended. The opacity of a region that matches no entry of the snapshot is 0.2 in
  edit mode and 0 in performance mode. The opacity of a region that matches some entry is its
  base opacity when it is not velocity sensitive, and \<open>(maxVelocity / 127) * baseOpacity\<close> when
  it is, where \<open>maxVelocity\<close> is the greatest of 0 and the velocities of all matching entries
  (the whole note range and, under omni, all 16 channels are scanned); when no matching entry
  has a negative velocity, as is the case for every entry the handler writes, that is the
  maximum velocity over the matching entries.
\<close>

theorem shapeOpacity_max_wins:
  "shapeOpacity md A shape =
     (if matchingEntries A shape = {} then (if md = EDIT then 0.2 else 0)
      else if velocitySensitive shape
        then (real_of_int (Max (insert 0 (ActiveNote.velocity ` matchingEntries A shape))) / 127)
               * baseOpacity shape
      else baseOpacity shape)
   \<and> (matchingEntries A shape \<noteq> {} \<and> (\<forall>e \<in> matchingEntries A shape. 0 \<le> ActiveNote.velocity e)
        \<longrightarrow> Max (insert 0 (ActiveNote.velocity ` matchingEntries A shape))
             = Max (ActiveNote.velocity ` matchingEntries A shape))"
proof -
  have 1: "shapeOpacity md A shape =
     (if matchingEntries A shape = {} then (if md = EDIT then 0.2 else 0)
      else if velocitySensitive shape
        then (real_of_int (Max (insert 0 (ActiveNote.velocity ` matchingEntries A shape))) / 127)
               * baseOpacity shape
      else baseOpacity shape)"
    by (simp add: shapeOpacity_def Let_def isShapeActive_active isShapeActive_velocity)
  have 2: "Max (insert 0 (ActiveNote.velocity ` matchingEntries A shape))
             = Max (ActiveNote.velocity ` matchingEntries A shape)"
    if ne: "matchingEntries A shape \<noteq> {}" and pos: "\<forall>e \<in> matchingEntries A shape. 0 \<le> ActiveNote.velocity e"
  proof -
    let ?V = "ActiveNote.velocity ` matchingEntries A shape"
    have fin: "finite ?V" by (simp add: finite_matchingEntries)
    from ne have nonempty: "?V \<noteq> {}" by simp
    from ne obtain e where e: "e \<in> matchingEntries A shape" by blast
    with pos have "0 \<le> ActiveNote.velocity e" by blast
    also from e fin have "ActiveNote.velocity e \<le> Max ?V" by simp
    finally have "max 0 (Max ?V) = Max ?V" by simp
    with fin nonempty show ?thesis by simp
  qed
  from 1 2 show ?thesis by blast
qed

lemma two_entries:
  "matchingEntries
     [getNoteKey (Num 1) (Num 60) \<mapsto> \<lparr> ActiveNote.velocity = 100, timestamp = 1 \<rparr>,
      getNoteKey (Num 2) (Num 60) \<mapsto> \<lparr> ActiveNote.velocity = 80, timestamp = 2 \<rparr>]
     (exampleRegion 0 60 60 True 1)
   = {\<lparr> ActiveNote.velocity = 100, timestamp = 1 \<rparr>, \<lparr> ActiveNote.velocity = 80, timestamp = 2 \<rparr>}"
  (is "?L = ?R")
proof (rule set_eqI)
  fix e
  show "(e \<in> ?L) = (e \<in> ?R)"
  proof
    assume "e \<in> ?L"
    then show "e \<in> ?R"
      by (auto simp: matchingEntries_def exampleRegion_fields split: if_splits)
  next
    assume "e \<in> ?R"
    then consider "e = \<lparr> ActiveNote.velocity = 100, timestamp = 1 \<rparr>"
      | "e = \<lparr> ActiveNote.velocity = 80, timestamp = 2 \<rparr>" by blast
    then show "e \<in> ?L"
    proof cases
      case 1
      show ?thesis unfolding matchingEntries_def exampleRegion_fields
        by (rule CollectI, rule exI [of _ 1], rule exI [of _ 60]) (simp add: 1)
    next
      case 2
      show ?thesis unfolding matchingEntries_def exampleRegion_fields
        by (rule CollectI, rule exI [of _ 2], rule exI [of _ 60]) (simp add: 2)
    qed
  qed
qed

theorem shapeOpacity_max_wins_witness:
  "matchingEntries
     [getNoteKey (Num 1) (Num 60) \<mapsto> \<lparr> ActiveNote.velocity = 100, timestamp = 1 \<rparr>,
      getNoteKey (Num 2) (Num 60) \<mapsto> \<lparr> ActiveNote.velocity = 80, timestamp = 2 \<rparr>]
     (exampleRegion 0 60 60 True 1)
     = {\<lparr> ActiveNote.velocity = 100, timestamp = 1 \<rparr>, \<lparr> ActiveNote.velocity = 80, timestamp = 2 \<rparr>}
   \<and> Max (ActiveNote.velocity ` matchingEntries
     [getNoteKey (Num 1) (Num 60) \<mapsto> \<lparr> ActiveNote.velocity = 100, timestamp = 1 \<rparr>,
      getNoteKey (Num 2) (Num 60) \<mapsto> \<lparr> ActiveNote.velocity = 80, timestamp = 2 \<rparr>]
     (exampleRegion 0 60 60 True 1)) = 100
   \<and> shapeOpacity PERFORMANCE
     [getNoteKey (Num 1) (Num 60) \<mapsto> \<lparr> ActiveNote.velocity = 100, timestamp = 1 \<rparr>,
      getNoteKey (Num 2) (Num 60) \<mapsto> \<lparr> ActiveNote.velocity = 80, timestamp = 2 \<rparr>]
     (exampleRegion 0 60 60 True 1) = 100 / 127"
  using shapeOpacity_max_wins [of PERFORMANCE
     "[getNoteKey (Num 1) (Num 60) \<mapsto> \<lparr> ActiveNote.velocity = 100, timestamp = 1 \<rparr>,
      getNoteKey (Num 2) (Num 60) \<mapsto> \<lparr> ActiveNote.velocity = 80, timestamp = 2 \<rparr>]"
     "exampleRegion 0 60 60 True 1"]
  by (simp add: two_entries exampleRegion_fields)

lemma inactive_empty:
  "isShapeActive Map.empty (exampleRegion 1 60 60 False 1) = \<lparr> active = False, velocity = 0 \<rparr>"
  by code_simp

text \<open>In edit mode an inactive region is drawn with opacity 0.2, not 0.\<close>

theorem shapeOpacity_inactive_counterexample:
  "\<not> active (isShapeActive Map.empty (exampleRegion 1 60 60 False 1))
   \<and> shapeOpacity EDIT Map.empty (exampleRegion 1 60 60 False 1) = 0.2
   \<and> shapeOpacity EDIT Map.empty (exampleRegion 1 60 60 False 1) \<noteq> 0"
  unfolding shapeOpacity_def inactive_empty by simp

section \<open>The authoring surface\<close>

lemma handleKeyDown_Enter_performance:
  "mode bound = PERFORMANCE \<Longrightarrow> handleKeyDown ''Enter'' uuid bound st = st"
  by (simp add: handleKeyDown_def)

lemma handleKeyDown_Enter_edit:
  "mode bound = EDIT \<Longrightarrow> isDrawing bound \<Longrightarrow>
     handleKeyDown ''Enter'' uuid bound st = finishDrawing uuid bound st"
  by (simp add: handleKeyDown_def)

lemma finishDrawing_ends: 
  "\<not> isDrawing (finishDrawing uuid bound st) \<and> drawingPoints (finishDrawing uuid bound st) = []
   \<and> mode (finishDrawing uuid bound st) = mode st
   \<and> draggedPointIndex (finishDrawing uuid bound st) = draggedPointIndex st"
  by (simp add: finishDrawing_def handleNewShape_def Let_def)

lemma finishDrawing_creates:
  "3 \<le> length (drawingPoints bound) \<Longrightarrow>
     (\<exists>r. shapes (finishDrawing uuid bound st) = shapes bound @ [r]
         \<and> points r = drawingPoints bound \<and> Shape.channel r = 0
         \<and> noteStart r = 60 \<and> noteEnd r = 60 \<and> id' r = uuid)
     \<and> selectedShapeId (finishDrawing uuid bound st) = Some uuid"
  by (simp add: finishDrawing_def handleNewShape_def Let_def)

lemma finishDrawing_too_few:
  "length (drawingPoints bound) < 3 \<Longrightarrow>
     shapes (finishDrawing uuid bound st) = shapes st
     \<and> selectedShapeId (finishDrawing uuid bound st) = selectedShapeId st"
  by (simp add: finishDrawing_def)

text \<open>
  What the listener does when the list of shapes has changed while a drawing was open: the
  list it was created with, here one region, comes back with the new shape, although the
  current list is empty.
\<close>

lemma finishDrawing_stale_list:
  "keydownListener ((drawingState examplePoints)\<lparr> shapes := [exampleRegion 0 60 60 False 1] \<rparr>)
     (drawingState examplePoints)
   \<and> map id' (shapes (handleKeyDown ''Enter'' ''u2''
                ((drawingState examplePoints)\<lparr> shapes := [exampleRegion 0 60 60 False 1] \<rparr>)
                (drawingState examplePoints)))
      = [''r'', ''u2'']"
  by (simp add: keydownListener_def handleKeyDown_def finishDrawing_def handleNewShape_def
      drawingState_def examplePoints_def exampleRegion_def Let_def)

text \<open>
  Claim C4, amended. In the state DRAWING the Enter key is ignored in performance mode: the
  state stays as it is. In edit mode it runs \<^verbatim>\<open>finishDrawing\<close>, which always ends the drawing
  and clears the points of the session, whatever their number. With at least 3 points, and
  when the list of shapes has not changed since the listener was created, it appends exactly
  one new shape to the list, whose points are those of the session in their order, with
  channel 0 (omni) and the single-note range 60 to 60, and selects it. With fewer than 3
  points it creates no shape and leaves the list and the selection as they are.
\<close>

theorem finishDrawing_commit:
  assumes "keydownListener bound st" and "isDrawing st"
  shows "(mode st = PERFORMANCE \<longrightarrow> handleKeyDown ''Enter'' uuid bound st = st)
   \<and> (mode st = EDIT \<longrightarrow>
        handleKeyDown ''Enter'' uuid bound st = finishDrawing uuid bound st
        \<and> \<not> isDrawing (handleKeyDown ''Enter'' uuid bound st)
        \<and> drawingPoints (handleKeyDown ''Enter'' uuid bound st) = []
        \<and> mode (handleKeyDown ''Enter'' uuid bound st) = EDIT
        \<and> (3 \<le> length (drawingPoints st) \<and> shapes bound = shapes st \<longrightarrow>
             (\<exists>r. shapes (handleKeyDown ''Enter'' uuid bound st) = shapes st @ [r]
                 \<and> points r = drawingPoints st \<and> Shape.channel r = 0
                 \<and> noteStart r = 60 \<and> noteEnd r = 60 \<and> id' r = uuid)
             \<and> selectedShapeId (handleKeyDown ''Enter'' uuid bound st) = Some uuid)
        \<and> (length (drawingPoints st) < 3 \<longrightarrow>
             shapes (handleKeyDown ''Enter'' uuid bound st) = shapes st
             \<and> selectedShapeId (handleKeyDown ''Enter'' uuid bound st) = selectedShapeId st))"
proof -
  from assms have b: "isDrawing bound" "drawingPoints bound = drawingPoints st" "mode bound = mode st"
    by (simp_all add: keydownListener_def)
  have perf: "handleKeyDown ''Enter'' uuid bound st = st" if "mode st = PERFORMANCE"
    using that b(3) by (simp add: handleKeyDown_Enter_performance)
  have edit: "handleKeyDown ''Enter'' uuid bound st = finishDrawing uuid bound st" if "mode st = EDIT"
    using that b(1,3) by (simp add: handleKeyDown_Enter_edit)
  have many: "(\<exists>r. shapes (finishDrawing uuid bound st) = shapes st @ [r]
                 \<and> points r = drawingPoints st \<and> Shape.channel r = 0
                 \<and> noteStart r = 60 \<and> noteEnd r = 60 \<and> id' r = uuid)
             \<and> selectedShapeId (finishDrawing uuid bound st) = Some uuid"
    if "3 \<le> length (drawingPoints st)" "shapes bound = shapes st"
    using that finishDrawing_creates [of bound uuid st] b(2) by simp
  have few: "shapes (finishDrawing uuid bound st) = shapes st
             \<and> selectedShapeId (finishDrawing uuid bound st) = selectedShapeId st"
    if "length (drawingPoints st) < 3"
    using that finishDrawing_too_few [of bound uuid st] b(2) by simp
  show ?thesis
  proof (cases "mode st")
    case EDIT
    with edit finishDrawing_ends [of uuid bound st] many few show ?thesis by simp
  next
    case PERFORMANCE
    with perf show ?thesis by simp
  qed
qed

theorem finishDrawing_commit_witness:
  "keydownListener (drawingState examplePoints) (drawingState examplePoints)
   \<and> isDrawing (drawingState examplePoints)
   \<and> mode (drawingState examplePoints) = EDIT
   \<and> 3 \<le> length (drawingPoints (drawingState examplePoints))
   \<and> \<not> isDrawing (handleKeyDown ''Enter'' ''u1'' (drawingState examplePoints) (drawingState examplePoints))
   \<and> map points (shapes (handleKeyDown ''Enter'' ''u1'' (drawingState examplePoints) (drawingState examplePoints)))
       = [examplePoints]
   \<and> map id' (shapes (handleKeyDown ''Enter'' ''u1'' (drawingState examplePoints) (drawingState examplePoints)))
       = [''u1'']
   \<and> length (drawingPoints (drawingState (take 2 examplePoints))) < 3
   \<and> shapes (handleKeyDown ''Enter'' ''u1'' (drawingState (take 2 examplePoints))
               (drawingState (take 2 examplePoints))) = []
   \<and> mode ((drawingState examplePoints)\<lparr> mode := PERFORMANCE \<rparr>) = PERFORMANCE
   \<and> handleKeyDown ''Enter'' ''u1'' ((drawingState examplePoints)\<lparr> mode := PERFORMANCE \<rparr>)
        ((drawingState examplePoints)\<lparr> mode := PERFORMANCE \<rparr>)
       = (drawingState examplePoints)\<lparr> mode := PERFORMANCE \<rparr>"
proof -
  have k: "keydownListener s s" for s by (simp add: keydownListener_def)
  have d: "isDrawing (drawingState pts)" "mode (drawingState pts) = EDIT"
    "drawingPoints (drawingState pts) = pts" "shapes (drawingState pts) = []" for pts
    by (simp_all add: drawingState_def)
  have l: "length examplePoints = 3" by (simp add: examplePoints_def)
  show ?thesis
    using finishDrawing_commit [OF k, of "drawingState examplePoints" "''u1''"]
      finishDrawing_commit [OF k, of "drawingState (take 2 examplePoints)" "''u1''"]
      finishDrawing_commit [OF k, of "(drawingState examplePoints)\<lparr> mode := PERFORMANCE \<rparr>" "''u1''"]
    by (auto simp: k d l)
qed

text \<open>In edit mode a commit with two points does not stay in the drawing state: it ends the
  drawing and drops the two points. In performance mode a commit with three points is
  ignored: the drawing stays open and no shape is created.\<close>

theorem finishDrawing_two_points_counterexample:
  "isDrawing (drawingState (take 2 examplePoints))
   \<and> length (drawingPoints (drawingState (take 2 examplePoints))) = 2
   \<and> \<not> isDrawing (handleKeyDown ''Enter'' ''u1'' (drawingState (take 2 examplePoints))
                     (drawingState (take 2 examplePoints)))
   \<and> drawingPoints (handleKeyDown ''Enter'' ''u1'' (drawingState (take 2 examplePoints))
                     (drawingState (take 2 examplePoints)))
       \<noteq> drawingPoints (drawingState (take 2 examplePoints))
   \<and> length (drawingPoints ((drawingState examplePoints)\<lparr> mode := PERFORMANCE \<rparr>)) = 3
   \<and> isDrawing (handleKeyDown ''Enter'' ''u1'' ((drawingState examplePoints)\<lparr> mode := PERFORMANCE \<rparr>)
                   ((drawingState examplePoints)\<lparr> mode := PERFORMANCE \<rparr>))
   \<and> shapes (handleKeyDown ''Enter'' ''u1'' ((drawingState examplePoints)\<lparr> mode := PERFORMANCE \<rparr>)
                   ((drawingState examplePoints)\<lparr> mode := PERFORMANCE \<rparr>)) = []"
  by (simp add: finishDrawing_def handleKeyDown_def drawingState_def examplePoints_def Let_def)





text \<open>The handler reaches its call of \<^verbatim>\<open>onShapeUpdate\<close> exactly when a vertex is being dragged
  and the selected shape, of a non-empty identifier, is in the list.\<close>

lemma handleWindowMouseMove_writes_iff:
  "(\<exists>updated. handleWindowMouseMove svgRef st clientX clientY = Some updated) =
     (\<exists>idx cid shape. draggedPointIndex st = Some idx \<and> selectedShapeId st = Some cid \<and> cid \<noteq> []
        \<and> find (\<lambda>s. id' s = cid) (shapes st) = Some shape)"
  by (auto simp: handleWindowMouseMove_def Let_def split: option.splits)



section \<open>The scenarios of the specification, evaluated\<close>

text \<open>
  A note-on on channel 1 for note 60 with velocity 100 lights a velocity-sensitive region on
  channel 1 and note 60 with opacity \<open>100 / 127\<close>; the note-off that follows puts it out. A
  note-on on channel 2 for note 61 lights an omni region of notes 60 to 62. Of three sounding
  notes in the range of an omni region, the loudest gives the velocity.
\<close>

lemma scenario_note_on:
  "isShapeActive (replay [([0x90, 60, 100], 1)] Map.empty) (exampleRegion 1 60 60 True 1)
     = \<lparr> active = True, velocity = 100 \<rparr>"
  by code_simp

lemma scenario_note_on_opacity:
  "shapeOpacity PERFORMANCE (replay [([0x90, 60, 100], 1)] Map.empty) (exampleRegion 1 60 60 True 1)
     = 100 / 127"
  unfolding shapeOpacity_def scenario_note_on by (simp add: exampleRegion_def)

lemma scenario_note_off:
  "isShapeActive (replay [([0x90, 60, 100], 1), ([0x80, 60, 0], 2)] Map.empty)
       (exampleRegion 1 60 60 True 1)
     = \<lparr> active = False, velocity = 0 \<rparr>"
  by code_simp

lemma scenario_omni:
  "isShapeActive (replay [([0x91, 61, 80], 1)] Map.empty) (exampleRegion 0 60 62 True 1)
     = \<lparr> active = True, velocity = 80 \<rparr>"
  by code_simp

lemma scenario_loudest_wins:
  "isShapeActive (replay [([0x90, 60, 80], 1), ([0x92, 61, 100], 2), ([0x95, 62, 90], 3)] Map.empty)
       (exampleRegion 0 60 62 True 1)
     = \<lparr> active = True, velocity = 100 \<rparr>"
  by code_simp

end
